theory Spec2Isabelle
  imports Main
begin

section \<open>Server health check (Day-01/devops-task/Server\_Health\_Check.py)\<close>

text \<open>
  The script:
  \<^verbatim>\<open>
  import os

  def check_server(host):
      response = os.system(f"ping -c 1 {host} > /dev/null 2>&1")
      if response == 0:
          print(f"{host} is UP")
      else:
          print(f"{host} is DOWN")
  \<close>
  A Python \<^verbatim>\<open>str\<close> is a sequence of code points, surrogates included, so it is a
  list of numbers here; \<open>str\<close> turns a literal of the script into one. A number above
  U+10FFFF is no character of any Python string; nothing below depends on one.
\<close>

type_synonym pystr = "nat list"

definition str :: "string \<Rightarrow> pystr" where
  "str s = map of_char s"

definition NUL :: nat where
  "NUL = 0"

definition LF :: nat where
  "LF = 10"

text \<open>
  The two effects of the script are kept in an explicit state: the command lines a shell
  was started with, and the text of each \<^verbatim>\<open>print\<close> call, both oldest first.
\<close>

record world =
  shell_commands :: "pystr list"
  stdout :: "pystr list"

text \<open>The Python exceptions that the two library calls raise from the text they are given.\<close>

datatype py_error = UnicodeEncodeError | ValueError string

type_synonym 'a io = "world \<Rightarrow> (py_error + 'a) \<times> world"

text \<open>
  Python is taken in its UTF-8 mode: the file system encoding and standard output are
  both UTF-8 with the \<^verbatim>\<open>surrogateescape\<close> error handler. A code point can then be
  encoded unless it is a surrogate outside U+DC80 to U+DCFF. A code point that is no
  surrogate at all is a scalar value: those every UTF-8 encoder accepts.
\<close>

definition encodable :: "nat \<Rightarrow> bool" where
  "encodable c = (c < 0xD800 \<or> 0xDFFF < c \<or> (0xDC80 \<le> c \<and> c \<le> 0xDCFF))"

definition scalar_value :: "nat \<Rightarrow> bool" where
  "scalar_value c = (c < 0xD800 \<or> 0xDFFF < c)"

text \<open>
  \<^verbatim>\<open>os.system(command)\<close>. CPython first encodes the command, which raises
  \<^verbatim>\<open>UnicodeEncodeError\<close> on a character that cannot be encoded, and then refuses a
  command that holds a NUL with \<^verbatim>\<open>ValueError("embedded null byte")\<close>. In both cases
  no shell is started. Otherwise the command line runs in a subshell and the call
  returns its wait status, which is 0 exactly when the command line ended with status 0.
  What the shell and \<^verbatim>\<open>ping\<close> answer is the surrounding system's business: it is the
  parameter \<open>env\<close>, the status the system gives for a command line.
\<close>

definition os_system :: "(pystr \<Rightarrow> int) \<Rightarrow> pystr \<Rightarrow> int io" where
  "os_system env command w =
     (if \<not> list_all encodable command then (Inl UnicodeEncodeError, w)
      else if NUL \<in> set command then (Inl (ValueError ''embedded null byte''), w)
      else (Inr (env command), w\<lparr>shell_commands := shell_commands w @ [command]\<rparr>))"

text \<open>
  \<^verbatim>\<open>print(text)\<close> writes the text and then a line feed, and raises
  \<^verbatim>\<open>UnicodeEncodeError\<close>, with nothing written, when the text cannot be encoded.
\<close>

definition py_print :: "pystr \<Rightarrow> unit io" where
  "py_print text w =
     (if \<not> list_all encodable text then (Inl UnicodeEncodeError, w)
      else (Inr (), w\<lparr>stdout := stdout w @ [text]\<rparr>))"

text \<open>The f-string \<^verbatim>\<open>f"ping -c 1 {host} > /dev/null 2>&1"\<close>.\<close>

definition ping_command :: "pystr \<Rightarrow> pystr" where
  "ping_command host = str ''ping -c 1 '' @ host @ str '' > /dev/null 2>&1''"

definition check_server :: "(pystr \<Rightarrow> int) \<Rightarrow> pystr \<Rightarrow> unit io" where
  "check_server env host w =
     (case os_system env (ping_command host) w of
        (Inl e, w') \<Rightarrow> (Inl e, w')
      | (Inr response, w') \<Rightarrow>
          if response = 0 then py_print (host @ str '' is UP'') w'
          else py_print (host @ str '' is DOWN'') w')"



text \<open>
  The outcome classes of the specification. The script has no such type: it prints. The
  view below reads a finished call the way the specification names it, \<^verbatim>\<open>UP\<close> as
  \<open>Reachable\<close> and \<^verbatim>\<open>DOWN\<close> as \<open>Unreachable\<close>; a call that raised or printed
  anything else has produced no outcome (\<open>None\<close>). Nothing the script does is read as
  \<open>Error\<close>.
\<close>

datatype ProbeResult = Reachable | Unreachable | Error string

definition probe_result :: "pystr \<Rightarrow> world \<Rightarrow> (py_error + unit) \<times> world \<Rightarrow> ProbeResult option" where
  "probe_result host w r =
     (case r of
        (Inl e, w') \<Rightarrow> None
      | (Inr u, w') \<Rightarrow>
          if stdout w' = stdout w @ [host @ str '' is UP''] then Some Reachable
          else if stdout w' = stdout w @ [host @ str '' is DOWN''] then Some Unreachable
          else None)"

text \<open>A system whose answer to every command line is the same wait status.\<close>

definition always_status :: "int \<Rightarrow> pystr \<Rightarrow> int" where
  "always_status rc command = rc"

definition start :: world where
  "start = \<lparr>shell_commands = [], stdout = []\<rparr>"

section \<open>Extracting IP addresses (Day-03-02-01-Task/task/Extracting\_IP\_Addresses\_from\_Logs.py)\<close>

text \<open>
  The script:
  \<^verbatim>\<open>
  log_data = """
  User logged in from 192.168.1.10
  Failed login attempt from 203.0.113.5
  """

  ip_pattern = r"(\d{1,3}\.){3}\d{1,3}"
  ip_addresses = re.findall(ip_pattern, log_data)
  print("Extracted IPs:", ip_addresses)
  \<close>
  The pattern is kept as its syntax tree, over the constructs it uses: the class
  \<^verbatim>\<open>\d\<close>, an escaped literal, concatenation, the greedy bounded repeat
  \<^verbatim>\<open>{m,n}\<close> (\<^verbatim>\<open>{n}\<close> is \<^verbatim>\<open>{n,n}\<close>) and the capturing group. The model keeps
  the text of one group, which is all the pattern has. Text is ASCII, as the log is, where
  \<^verbatim>\<open>\d\<close> is a character of 0 to 9.
\<close>

datatype regex = Digit | Lit char | Seq regex regex | Repeat nat nat regex | Group regex

text \<open>A state of the matcher: the text still to be read, and what group 1 holds.\<close>

type_synonym mstate = "string \<times> string option"

definition is_digit :: "char \<Rightarrow> bool" where
  "is_digit c = (c \<in> set ''0123456789'')"

text \<open>
  Python's matcher backtracks: it tries the alternatives of a pattern in a fixed order
  and keeps the first that lets the rest of the pattern succeed. The model returns all
  the states a pattern can end in, in that order, so the engine's choice is the head of
  the list. A greedy repeat tries one more round of its body before it tries to stop.
\<close>

fun rep :: "nat \<Rightarrow> nat \<Rightarrow> (mstate \<Rightarrow> mstate list) \<Rightarrow> mstate \<Rightarrow> mstate list" where
  "rep lo 0 f st = (if lo = 0 then [st] else [])"
| "rep lo (Suc hi) f st =
     concat (map (rep (lo - 1) hi f) (f st)) @ (if lo = 0 then [st] else [])"

primrec sre_match :: "regex \<Rightarrow> mstate \<Rightarrow> mstate list" where
  "sre_match Digit st =
     (case fst st of [] \<Rightarrow> [] | c # cs \<Rightarrow> if is_digit c then [(cs, snd st)] else [])"
| "sre_match (Lit a) st =
     (case fst st of [] \<Rightarrow> [] | c # cs \<Rightarrow> if c = a then [(cs, snd st)] else [])"
| "sre_match (Seq r1 r2) st = concat (map (sre_match r2) (sre_match r1 st))"
| "sre_match (Repeat lo hi r) st = rep lo hi (sre_match r) st"
| "sre_match (Group r) st =
     map (\<lambda>st'. (fst st', Some (take (length (fst st) - length (fst st')) (fst st))))
       (sre_match r st)"

text \<open>The number of capturing groups of a pattern.\<close>

primrec groups :: "regex \<Rightarrow> nat" where
  "groups Digit = 0"
| "groups (Lit a) = 0"
| "groups (Seq r1 r2) = groups r1 + groups r2"
| "groups (Repeat lo hi r) = groups r"
| "groups (Group r) = Suc (groups r)"

text \<open>
  One attempt of the pattern at the start of \<open>s\<close>. After an empty match the next
  attempt at the same place must advance: a match that ends where it began is passed over.
\<close>

definition attempt :: "regex \<Rightarrow> bool \<Rightarrow> string \<Rightarrow> mstate list" where
  "attempt r must_advance s =
     filter (\<lambda>st'. \<not> (must_advance \<and> length (fst st') = length s)) (sre_match r (s, None))"

text \<open>
  What \<^verbatim>\<open>re.findall\<close> puts in its list for one match: the matched text when the
  pattern has no group, and the text of the group when it has one (the empty string when
  the group took no part in the match).
\<close>

definition item :: "regex \<Rightarrow> string \<Rightarrow> mstate \<Rightarrow> string" where
  "item r s st' =
     (if groups r = 0 then take (length s - length (fst st')) s
      else (case snd st' of None \<Rightarrow> [] | Some g \<Rightarrow> g))"

text \<open>The matcher only reads forward, which is why the scan below ends.\<close>

lemma rep_length:
  assumes "\<And>st st'. st' \<in> set (f st) \<Longrightarrow> length (fst st') \<le> length (fst st)"
  shows "st' \<in> set (rep lo hi f st) \<Longrightarrow> length (fst st') \<le> length (fst st)"
proof (induction hi arbitrary: lo st)
  case 0
  then show ?case by (simp split: if_splits)
next
  case (Suc hi)
  from Suc.prems consider
      (more) st1 where "st1 \<in> set (f st)" "st' \<in> set (rep (lo - 1) hi f st1)"
    | (stop) "st' = st"
    by (auto split: if_splits)
  then show ?case
  proof cases
    case more
    from Suc.IH [OF more(2)] assms [OF more(1)] show ?thesis by simp
  next
    case stop
    then show ?thesis by simp
  qed
qed

lemma sre_match_length:
  "st' \<in> set (sre_match r st) \<Longrightarrow> length (fst st') \<le> length (fst st)"
proof (induction r arbitrary: st st')
  case Digit
  then show ?case by (cases "fst st") (auto split: if_splits)
next
  case (Lit a)
  then show ?case by (cases "fst st") (auto split: if_splits)
next
  case (Seq r1 r2)
  from Seq.prems obtain st1
    where "st1 \<in> set (sre_match r1 st)" "st' \<in> set (sre_match r2 st1)"
    by auto
  with Seq.IH show ?case by (meson order_trans)
next
  case (Repeat lo hi r)
  from Repeat.prems have "st' \<in> set (rep lo hi (sre_match r) st)" by simp
  then show ?case by (rule rep_length [rotated]) (rule Repeat.IH)
next
  case (Group r)
  from Group.prems obtain st1 where "st1 \<in> set (sre_match r st)" "fst st' = fst st1"
    by auto
  with Group.IH show ?case by simp
qed

text \<open>
  \<^verbatim>\<open>re.findall\<close>: scan from the left; where the pattern matches, take the item and go
  on from the end of the match; where it does not, go on one character further.
\<close>

function findall_from :: "regex \<Rightarrow> bool \<Rightarrow> string \<Rightarrow> string list" where
  "findall_from r must_advance s =
     (case attempt r must_advance s of
        st' # _ \<Rightarrow> item r s st' # findall_from r (length (fst st') = length s) (fst st')
      | [] \<Rightarrow> (case s of [] \<Rightarrow> [] | c # cs \<Rightarrow> findall_from r False cs))"
  by pat_completeness auto
termination
proof (relation "measure (\<lambda>(r, must_advance, s). 2 * length s + (if must_advance then 0 else 1))")
  show "wf (measure (\<lambda>(r, must_advance, s). 2 * length s + (if must_advance then 0 else 1)))"
    by simp
next
  fix r :: regex and must_advance :: bool and s :: string
    and st' :: mstate and sts :: "mstate list"
  assume "attempt r must_advance s = st' # sts"
  then have mem: "st' \<in> set (attempt r must_advance s)" by simp
  then have "st' \<in> set (sre_match r (s, None))" by (simp add: attempt_def)
  then have le: "length (fst st') \<le> length s" using sre_match_length by fastforce
  from mem have ne: "must_advance \<Longrightarrow> length (fst st') \<noteq> length s"
    by (simp add: attempt_def)
  show "((r, length (fst st') = length s, fst st'), (r, must_advance, s))
        \<in> measure (\<lambda>(r, must_advance, s). 2 * length s + (if must_advance then 0 else 1))"
    using le ne by (cases must_advance) auto
next
  fix r :: regex and must_advance :: bool and s :: string and c :: char and cs :: string
  assume "s = c # cs"
  then show "((r, False, cs), (r, must_advance, s))
        \<in> measure (\<lambda>(r, must_advance, s). 2 * length s + (if must_advance then 0 else 1))"
    by simp
qed

definition findall :: "regex \<Rightarrow> string \<Rightarrow> string list" where
  "findall r s = findall_from r False s"

text \<open>
  The pattern \<^verbatim>\<open>(\d{1,3}\.){3}\d{1,3}\<close>: three rounds of the group "one to three
  digits and a dot", then one to three digits.
\<close>

definition ip_pattern :: regex where
  "ip_pattern =
     Seq (Repeat 3 3 (Group (Seq (Repeat 1 3 Digit) (Lit (CHR ''.'')))))
         (Repeat 1 3 Digit)"

text \<open>The log: the triple-quoted string starts and ends with a line break.\<close>

definition log_data :: string where
  "log_data =
     [CHR 0x0A] @ ''User logged in from 192.168.1.10'' @
     [CHR 0x0A] @ ''Failed login attempt from 203.0.113.5'' @ [CHR 0x0A]"

text \<open>A run of one to three digits.\<close>

definition digit_run :: "string \<Rightarrow> bool" where
  "digit_run x = (1 \<le> length x \<and> length x \<le> 3 \<and> list_all is_digit x)"

section \<open>The health check: what one call does\<close>

lemma scalar_value_encodable: "scalar_value c \<Longrightarrow> encodable c"
  by (auto simp: scalar_value_def encodable_def)

lemma scalar_values_encodable: "list_all scalar_value s \<Longrightarrow> list_all encodable s"
  by (induction s) (simp_all add: scalar_value_encodable)

lemma encodable_str_up [simp]: "list_all encodable (str '' is UP'')"
  by (simp add: str_def encodable_def)

lemma encodable_str_down [simp]: "list_all encodable (str '' is DOWN'')"
  by (simp add: str_def encodable_def)

lemma up_not_down [simp]:
  "str '' is UP'' \<noteq> str '' is DOWN''" "str '' is DOWN'' \<noteq> str '' is UP''"
  by (simp_all add: str_def)

lemma encodable_ping_command [simp]:
  "list_all encodable (ping_command host) \<longleftrightarrow> list_all encodable host"
  by (auto simp: ping_command_def str_def encodable_def)

lemma nul_in_ping_command [simp]: "NUL \<in> set (ping_command host) \<longleftrightarrow> NUL \<in> set host"
  by (auto simp: ping_command_def str_def NUL_def)

lemma os_system_accepts:
  "list_all encodable host \<Longrightarrow> NUL \<notin> set host \<Longrightarrow>
   os_system env (ping_command host) w =
     (Inr (env (ping_command host)),
      w\<lparr>shell_commands := shell_commands w @ [ping_command host]\<rparr>)"
  by (simp add: os_system_def)

lemma check_server_returns:
  "list_all encodable host \<Longrightarrow> NUL \<notin> set host \<Longrightarrow>
   check_server env host w =
     (Inr (), \<lparr>shell_commands = shell_commands w @ [ping_command host],
               stdout = stdout w @
                 [host @ (if env (ping_command host) = 0 then str '' is UP'' else str '' is DOWN'')]\<rparr>)"
  by (simp add: check_server_def os_system_accepts py_print_def)

lemma check_server_raises_encode:
  "\<not> list_all encodable host \<Longrightarrow> check_server env host w = (Inl UnicodeEncodeError, w)"
  by (simp add: check_server_def os_system_def)

lemma check_server_raises_nul:
  "list_all encodable host \<Longrightarrow> NUL \<in> set host \<Longrightarrow>
   check_server env host w = (Inl (ValueError ''embedded null byte''), w)"
  by (simp add: check_server_def os_system_def)






lemma lf_not_in_up [simp]: "LF \<notin> set (str '' is UP'')"
  by (simp add: str_def LF_def)

lemma lf_not_in_down [simp]: "LF \<notin> set (str '' is DOWN'')"
  by (simp add: str_def LF_def)




text \<open>
  C2, as stated, fails: for the empty host string and a system where the command line
  fails (\<^verbatim>\<open>ping\<close> without a destination exits with status 2, the wait status 512),
  the call prints \<^verbatim>\<open>" is DOWN"\<close>. That is the outcome the specification calls
  Unreachable, not \<open>Error "invalid host"\<close>. And a host string with a NUL or with the
  surrogate U+D800 is not reported at all: the exception of \<^verbatim>\<open>os.system\<close> leaves
  the function.
\<close>

theorem check_server_empty_host_is_down:
  "check_server (always_status 512) [] start =
     (Inr (), \<lparr>shell_commands = [str ''ping -c 1  > /dev/null 2>&1''], stdout = [str '' is DOWN'']\<rparr>)
   \<and> probe_result [] start (check_server (always_status 512) [] start) = Some Unreachable
   \<and> probe_result [] start (check_server (always_status 512) [] start)
       \<noteq> Some (Error ''invalid host'')
   \<and> fst (check_server (always_status 512) [NUL] start) = Inl (ValueError ''embedded null byte'')
   \<and> fst (check_server (always_status 512) [0xD800] start) = Inl UnicodeEncodeError"
  by (simp add: check_server_def os_system_def py_print_def ping_command_def probe_result_def
      always_status_def start_def str_def encodable_def NUL_def)

text \<open>
  C2, amended: for an empty or malformed host string of scalar values (no surrogate)
  that holds no NUL, \<^verbatim>\<open>check_server\<close> does not raise and reports no error of its own.
  It classifies the host by the status that \<^verbatim>\<open>os.system\<close> returns for the command
  line alone: Unreachable (the \<^verbatim>\<open>DOWN\<close> text) for every nonzero status, Reachable
  (the \<^verbatim>\<open>UP\<close> text) for status 0.
\<close>

theorem check_server_no_error_outcome:
  assumes "list_all scalar_value host" and "NUL \<notin> set host"
  shows "fst (check_server env host w) = Inr ()
         \<and> probe_result host w (check_server env host w) =
             Some (if env (ping_command host) = 0 then Reachable else Unreachable)"
  using scalar_values_encodable [OF assms(1)] assms(2)
  by (simp add: check_server_returns probe_result_def)

theorem check_server_no_error_outcome_witness:
  "list_all scalar_value [] \<and> NUL \<notin> set []
   \<and> fst (check_server (always_status 512) [] start) = Inr ()
   \<and> probe_result [] start (check_server (always_status 512) [] start) = Some Unreachable"
  using check_server_no_error_outcome [of "[]" "always_status 512" start]
  by (simp add: always_status_def)

text \<open>
  C4: whenever the probe completes with a nonzero status, that is, \<^verbatim>\<open>os.system\<close>
  returns a status \<open>rc\<close> other than 0, the call prints the host followed by
  \<^verbatim>\<open>is DOWN\<close>, the Unreachable outcome. No reply before the timeout and a name that
  does not resolve both end \<^verbatim>\<open>ping\<close> with such a status.
\<close>

theorem check_server_nonzero_is_down:
  assumes "fst (os_system env (ping_command host) w) = Inr rc" and "rc \<noteq> 0"
  shows "stdout (snd (check_server env host w)) = stdout w @ [host @ str '' is DOWN'']
         \<and> probe_result host w (check_server env host w) = Some Unreachable"
proof -
  from assms(1) have enc: "list_all encodable host" and nul: "NUL \<notin> set host"
    by (auto simp: os_system_def split: if_splits)
  with assms(1) have "env (ping_command host) = rc"
    by (simp add: os_system_accepts)
  with assms(2) enc nul show ?thesis
    by (simp add: check_server_returns probe_result_def)
qed

theorem check_server_nonzero_is_down_witness:
  "fst (os_system (always_status 256) (ping_command (str ''203.0.113.255'')) start) = Inr 256
   \<and> (256::int) \<noteq> 0
   \<and> stdout (snd (check_server (always_status 256) (str ''203.0.113.255'') start))
       = [str ''203.0.113.255 is DOWN'']
   \<and> probe_result (str ''203.0.113.255'') start
        (check_server (always_status 256) (str ''203.0.113.255'') start) = Some Unreachable"
proof -
  have e: "list_all encodable (str ''203.0.113.255'')" "NUL \<notin> set (str ''203.0.113.255'')"
    by (simp_all add: str_def encodable_def NUL_def)
  have h: "fst (os_system (always_status 256) (ping_command (str ''203.0.113.255'')) start) = Inr 256"
    by (simp add: os_system_accepts [OF e] always_status_def)
  have n: "(256::int) \<noteq> 0" by simp
  from check_server_nonzero_is_down [OF h n] h show ?thesis
    by (simp add: start_def str_def)
qed

text \<open>
  C5: for every non-empty host string of scalar values without a NUL, as every host
  name and address is, the call returns normally in a fully determined state: one more
  shell command, one more printed text, and an outcome that is Reachable or Unreachable.
\<close>

theorem check_server_defined_result:
  assumes "host \<noteq> []" and "NUL \<notin> set host" and "list_all scalar_value host"
  shows "(check_server env host w =
            (Inr (), \<lparr>shell_commands = shell_commands w @ [ping_command host],
                      stdout = stdout w @ [host @ str '' is UP'']\<rparr>)
          \<and> probe_result host w (check_server env host w) = Some Reachable)
         \<or> (check_server env host w =
            (Inr (), \<lparr>shell_commands = shell_commands w @ [ping_command host],
                      stdout = stdout w @ [host @ str '' is DOWN'']\<rparr>)
          \<and> probe_result host w (check_server env host w) = Some Unreachable)"
  using scalar_values_encodable [OF assms(3)] assms(2)
  by (simp add: check_server_returns probe_result_def)

theorem check_server_defined_result_witness:
  "str ''127.0.0.1'' \<noteq> [] \<and> NUL \<notin> set (str ''127.0.0.1'')
   \<and> list_all scalar_value (str ''127.0.0.1'')
   \<and> check_server (always_status 0) (str ''127.0.0.1'') start =
       (Inr (), \<lparr>shell_commands = [str ''ping -c 1 127.0.0.1 > /dev/null 2>&1''],
                 stdout = [str ''127.0.0.1 is UP'']\<rparr>)
   \<and> probe_result (str ''127.0.0.1'') start
        (check_server (always_status 0) (str ''127.0.0.1'') start) = Some Reachable"
  using check_server_defined_result [of "str ''127.0.0.1''" "always_status 0" start]
  by (simp add: check_server_def os_system_def py_print_def probe_result_def
      always_status_def start_def ping_command_def str_def encodable_def scalar_value_def NUL_def)

text \<open>
  C6, as stated, fails: for the host string that is one NUL the call starts no shell, so
  no probe is sent.
\<close>

theorem check_server_nul_host_no_probe:
  "shell_commands (snd (check_server (always_status 0) [NUL] start)) = []
   \<and> fst (check_server (always_status 0) [NUL] start) = Inl (ValueError ''embedded null byte'')"
  by (simp add: check_server_def os_system_def ping_command_def start_def str_def
      encodable_def NUL_def)

text \<open>
  C6, amended: one call of \<^verbatim>\<open>check_server\<close> calls \<^verbatim>\<open>os.system\<close> once and never
  again. It starts the shell exactly once, with the one command line
  \<^verbatim>\<open>ping -c 1 <host> > /dev/null 2>&1\<close>, when \<^verbatim>\<open>os.system\<close> accepts the command
  (every character encodable, no NUL), and not at all otherwise. What that command line
  then sends is decided by the shell and \<^verbatim>\<open>ping\<close>.
\<close>

theorem check_server_one_shell_command:
  "shell_commands (snd (check_server env host w)) =
     shell_commands w @
       (if list_all encodable host \<and> NUL \<notin> set host then [ping_command host] else [])"
proof (cases "list_all encodable host")
  case False
  then show ?thesis by (simp add: check_server_raises_encode)
next
  case True
  then show ?thesis
    by (cases "NUL \<in> set host") (simp_all add: check_server_raises_nul check_server_returns)
qed

theorem check_server_one_shell_command_witness:
  "shell_commands (snd (check_server (always_status 0) (str ''127.0.0.1'') start))
     = [str ''ping -c 1 127.0.0.1 > /dev/null 2>&1'']
   \<and> shell_commands (snd (check_server (always_status 0) (str ''127.0.0.1'')
        (snd (check_server (always_status 0) [0xD800] start)))) 
     = [str ''ping -c 1 127.0.0.1 > /dev/null 2>&1'']"
  using check_server_one_shell_command [of "always_status 0" "str ''127.0.0.1''" start]
    check_server_one_shell_command [of "always_status 0" "[0xD800]" start]
    check_server_one_shell_command [of "always_status 0" "str ''127.0.0.1''"
      "snd (check_server (always_status 0) [0xD800] start)"]
  by (simp add: start_def ping_command_def str_def encodable_def NUL_def)

text \<open>
  C8: two calls for the same host, in any two states and systems, that get the same
  status from the probe end the same way: the same outcome class, and the same
  exception if any.
\<close>

theorem check_server_same_outcome_class:
  assumes "envA (ping_command host) = envB (ping_command host)"
  shows "probe_result host wA (check_server envA host wA)
           = probe_result host wB (check_server envB host wB)
         \<and> fst (check_server envA host wA) = fst (check_server envB host wB)"
proof (cases "list_all encodable host")
  case False
  then show ?thesis by (simp add: check_server_raises_encode probe_result_def)
next
  case True
  with assms show ?thesis
    by (cases "NUL \<in> set host")
       (simp_all add: check_server_raises_nul check_server_returns probe_result_def)
qed

theorem check_server_same_outcome_class_witness:
  "always_status 0 (ping_command (str ''127.0.0.1''))
     = always_status 0 (ping_command (str ''127.0.0.1''))
   \<and> probe_result (str ''127.0.0.1'') start
        (check_server (always_status 0) (str ''127.0.0.1'') start) = Some Reachable
   \<and> probe_result (str ''127.0.0.1'')
        (snd (check_server (always_status 512) (str ''example.invalid'') start))
        (check_server (always_status 0) (str ''127.0.0.1'')
           (snd (check_server (always_status 512) (str ''example.invalid'') start)))
       = Some Reachable"
proof -
  have h: "always_status 0 (ping_command (str ''127.0.0.1''))
             = always_status 0 (ping_command (str ''127.0.0.1''))"
    by simp
  have e: "list_all encodable (str ''127.0.0.1'')" "NUL \<notin> set (str ''127.0.0.1'')"
    by (simp_all add: str_def encodable_def NUL_def)
  have r: "probe_result (str ''127.0.0.1'') start
             (check_server (always_status 0) (str ''127.0.0.1'') start) = Some Reachable"
    by (simp add: check_server_returns [OF e] probe_result_def always_status_def)
  from check_server_same_outcome_class
         [where envA = "always_status 0" and envB = "always_status 0"
            and host = "str ''127.0.0.1''" and wA = start
            and wB = "snd (check_server (always_status 512) (str ''example.invalid'') start)", OF h]
       h r
  show ?thesis by simp
qed

text \<open>
  C10, as stated, fails: for the host string that is the surrogate U+D800,
  \<^verbatim>\<open>os.system\<close> raises while it encodes the command, and no shell is invoked with
  any command.
\<close>

theorem check_server_surrogate_host_no_shell:
  "check_server (always_status 0) [0xD800] start = (Inl UnicodeEncodeError, start)
   \<and> shell_commands (snd (check_server (always_status 0) [0xD800] start)) = []"
  by (simp add: check_server_def os_system_def ping_command_def start_def str_def encodable_def)

text \<open>
  C10, amended: for every host string that \<^verbatim>\<open>os.system\<close> accepts (every character
  encodable, no NUL), \<^verbatim>\<open>check_server\<close> invokes the shell with exactly
  \<^verbatim>\<open>"ping -c 1 " + host + " > /dev/null 2>&1"\<close>, the characters of the host standing
  in the command as they were given, none checked, quoted or escaped, and it is the
  status of exactly this command line that chooses what is printed.
\<close>

theorem check_server_command_verbatim:
  assumes "list_all encodable host" and "NUL \<notin> set host"
  shows "shell_commands (snd (check_server env host w))
           = shell_commands w @ [str ''ping -c 1 '' @ host @ str '' > /dev/null 2>&1'']
         \<and> check_server env host w =
             (if env (str ''ping -c 1 '' @ host @ str '' > /dev/null 2>&1'') = 0
              then py_print (host @ str '' is UP'')
              else py_print (host @ str '' is DOWN''))
               (w\<lparr>shell_commands :=
                    shell_commands w @ [str ''ping -c 1 '' @ host @ str '' > /dev/null 2>&1'']\<rparr>)"
  using assms os_system_accepts [OF assms, of env w]
  by (simp add: check_server_def py_print_def ping_command_def)

theorem check_server_command_verbatim_witness:
  "list_all encodable (str ''a b; c'') \<and> NUL \<notin> set (str ''a b; c'')
   \<and> shell_commands (snd (check_server (always_status 0) (str ''a b; c'') start))
       = [str ''ping -c 1 a b; c > /dev/null 2>&1'']"
proof -
  have h: "list_all encodable (str ''a b; c'')" "NUL \<notin> set (str ''a b; c'')"
    by (simp_all add: str_def encodable_def NUL_def)
  from check_server_command_verbatim [OF h, of "always_status 0" start, THEN conjunct1] h
  show ?thesis by (simp add: start_def str_def)
qed

section \<open>The IP pattern: what the script extracts\<close>

lemma digit_not_dot: "is_digit c \<Longrightarrow> c \<noteq> CHR ''.''"
  by (auto simp: is_digit_def)

lemma dot_not_digit: "\<not> is_digit (CHR ''.'')"
  by (simp add: is_digit_def)

lemma digit_run_cases:
  assumes "digit_run x"
  obtains (one) p where "x = [p]" "is_digit p"
    | (two) p q where "x = [p, q]" "is_digit p" "is_digit q"
    | (three) p q r where "x = [p, q, r]" "is_digit p" "is_digit q" "is_digit r"
proof -
  from assms have len: "length x = 1 \<or> length x = 2 \<or> length x = 3"
    and ds: "list_all is_digit x"
    by (auto simp: digit_run_def)
  from len show thesis
  proof (elim disjE)
    assume "length x = 1"
    then obtain p where "x = [p]" by (cases x) auto
    with ds one show thesis by simp
  next
    assume "length x = 2"
    then obtain p q where "x = [p, q]" by (auto simp: length_Suc_conv numeral_2_eq_2)
    with ds two show thesis by simp
  next
    assume "length x = 3"
    then obtain p q r where "x = [p, q, r]" by (auto simp: length_Suc_conv numeral_3_eq_3)
    with ds three show thesis by simp
  qed
qed

text \<open>
  One round of the group on a digit run and its dot: the greedy repeat takes the whole
  run, no shorter choice reaches the dot, and the group holds the run with the dot.
\<close>

lemma octet_dot:
  assumes "digit_run x"
  shows "sre_match (Group (Seq (Repeat 1 3 Digit) (Lit (CHR ''.'')))) (x @ ''.'' @ rest, g)
         = [(rest, Some (x @ ''.''))]"
  using assms
  by (cases rule: digit_run_cases)
     (simp_all add: numeral_3_eq_3 digit_not_dot dot_not_digit)

text \<open>Three rounds: the group is left holding the third run.\<close>

lemma three_octets:
  assumes "digit_run a" "digit_run b" "digit_run c"
  shows "sre_match (Repeat 3 3 (Group (Seq (Repeat 1 3 Digit) (Lit (CHR ''.'')))))
           (a @ ''.'' @ b @ ''.'' @ c @ ''.'' @ rest, g)
         = [(rest, Some (c @ ''.''))]"
  using octet_dot [OF assms(1)] octet_dot [OF assms(2)] octet_dot [OF assms(3)]
  by (simp add: numeral_3_eq_3 del: sre_match.simps(5))

lemma last_run_all:
  assumes "digit_run d"
  shows "\<exists>sts. sre_match (Repeat 1 3 Digit) (d, g) = ([], g) # sts"
  using assms
  by (cases rule: digit_run_cases) (simp_all add: numeral_3_eq_3)

lemma last_run_some:
  assumes "digit_run d"
  shows "(post, g) \<in> set (sre_match (Repeat 1 3 Digit) (d @ post, g))"
  using assms
  by (cases rule: digit_run_cases) (simp_all add: numeral_3_eq_3)

lemma ip_whole:
  assumes "digit_run a" "digit_run b" "digit_run c" "digit_run d"
  shows "\<exists>sts. sre_match ip_pattern (a @ ''.'' @ b @ ''.'' @ c @ ''.'' @ d, None)
               = ([], Some (c @ ''.'')) # sts"
proof -
  from last_run_all [OF assms(4)] obtain sts where
    "sre_match (Repeat 1 3 Digit) (d, Some (c @ ''.'')) = ([], Some (c @ ''.'')) # sts"
    by blast
  with three_octets [OF assms(1-3), of d None] show ?thesis
    by (simp add: ip_pattern_def del: sre_match.simps(4,5))
qed

lemma ip_within:
  assumes "digit_run a" "digit_run b" "digit_run c" "digit_run d"
  shows "(post, Some (c @ ''.''))
         \<in> set (sre_match ip_pattern (a @ ''.'' @ b @ ''.'' @ c @ ''.'' @ d @ post, None))"
  using three_octets [OF assms(1-3), of "d @ post" None]
    last_run_some [OF assms(4), of post "Some (c @ ''.'')"]
  by (simp add: ip_pattern_def del: sre_match.simps(4,5))

text \<open>A text in which the pattern matches somewhere gives a list that is not empty.\<close>

lemma findall_from_nonempty:
  "attempt r False t \<noteq> [] \<Longrightarrow> findall_from r False (pre @ t) \<noteq> []"
proof (induction pre)
  case Nil
  then show ?case by (cases "attempt r False t") simp_all
next
  case (Cons c pre)
  then show ?case by (cases "attempt r False (c # pre @ t)") simp_all
qed

lemma ip_pattern_no_empty_match: "sre_match ip_pattern ([], g) = []"
  by (simp add: ip_pattern_def numeral_3_eq_3)

lemma groups_ip_pattern: "groups ip_pattern = 1"
  by (simp add: ip_pattern_def)

text \<open>
  C3: what the script's call returns on its own log. The two matches are found in
  order and without overlap, but the list holds the text of the group in each of them,
  \<^verbatim>\<open>['1.', '113.']\<close>, and neither of the two addresses: the pattern has a capturing
  group, and \<^verbatim>\<open>re.findall\<close> then lists the group, not the match.
\<close>

theorem findall_log_data_returns_group:
  "findall ip_pattern log_data = [''1.'', ''113.'']"
  by code_simp

text \<open>
  C9: the pattern matches any four runs of one to three digits with dots between them,
  whatever the digits are. On such a text the matcher's first choice reads all of it; within
  any longer text the scan finds a match; and what the script's call extracts from it is
  the third run with its dot. The witness is \<^verbatim>\<open>999.999.999.999\<close>, no IPv4 address.
\<close>

theorem ip_pattern_accepts_any_digit_runs:
  assumes "digit_run a" and "digit_run b" and "digit_run c" and "digit_run d"
  shows "sre_match ip_pattern (a @ ''.'' @ b @ ''.'' @ c @ ''.'' @ d, None) \<noteq> []
         \<and> hd (sre_match ip_pattern (a @ ''.'' @ b @ ''.'' @ c @ ''.'' @ d, None))
             = ([], Some (c @ ''.''))
         \<and> findall ip_pattern (pre @ a @ ''.'' @ b @ ''.'' @ c @ ''.'' @ d @ post) \<noteq> []
         \<and> findall ip_pattern (a @ ''.'' @ b @ ''.'' @ c @ ''.'' @ d) = [c @ ''.'']"
proof -
  let ?text = "a @ ''.'' @ b @ ''.'' @ c @ ''.'' @ d"
  from ip_whole [OF assms] obtain sts where
    whole: "sre_match ip_pattern (?text, None) = ([], Some (c @ ''.'')) # sts"
    by blast
  have within: "attempt ip_pattern False (?text @ post) \<noteq> []"
    using ip_within [OF assms, of post] by (auto simp: attempt_def)
  have found: "findall ip_pattern (pre @ ?text @ post) \<noteq> []"
    unfolding findall_def using findall_from_nonempty [OF within, of pre] by simp
  have "findall_from ip_pattern False ?text
          = item ip_pattern ?text ([], Some (c @ ''.'')) # findall_from ip_pattern False []"
    using whole by (simp add: attempt_def)
  moreover have "findall_from ip_pattern False [] = []"
    by (simp add: attempt_def ip_pattern_no_empty_match)
  ultimately have extracted: "findall ip_pattern ?text = [c @ ''.'']"
    by (simp add: findall_def item_def groups_ip_pattern)
  from whole found extracted show ?thesis by simp
qed

theorem ip_pattern_accepts_any_digit_runs_witness:
  "digit_run ''999''
   \<and> hd (sre_match ip_pattern (''999.999.999.999'', None)) = ([], Some ''999.'')
   \<and> findall ip_pattern (''from 999.999.999.999 port 22'') \<noteq> []
   \<and> findall ip_pattern ''999.999.999.999'' = [''999.'']"
proof -
  have run: "digit_run ''999''"
    by (simp add: digit_run_def is_digit_def)
  from ip_pattern_accepts_any_digit_runs [OF run run run run, of "''from ''" "'' port 22''"] run
  show ?thesis by simp
qed

end
